theory Spec2Isabelle
  imports Main
begin

section \<open>Request binding: package form and package reqconv\<close>

text \<open>
  A shallow embedding of \<^verbatim>\<open>form/decode.go\<close> (the binder: \<^verbatim>\<open>UnpackWithOption\<close>,
  \<^verbatim>\<open>unpack\<close>, \<^verbatim>\<open>unpackMultipart\<close>, \<^verbatim>\<open>populate\<close>, \<^verbatim>\<open>populatePart\<close>) and of
  the dispatcher \<^verbatim>\<open>reqconv.Unmarshal\<close>.

  The destination struct is a list of field descriptors (what \<^verbatim>\<open>reflect\<close> reports
  for the struct type) together with a list of field values (the state the binder
  mutates). Go strings are byte strings, hence \<open>string\<close>. A call ends with a nil
  error, with an error, or with a panic; the state reached is returned in each case,
  since the binder mutates the caller's struct in place.
\<close>

subsection \<open>Types and values as package reflect shows them\<close>

text \<open>The enumeration \<^verbatim>\<open>reflect.Kind\<close> (\<open>Int_kind\<close> is \<^verbatim>\<open>reflect.Int\<close>).\<close>

datatype kind =
    Invalid | Bool | Int_kind | Int8 | Int16 | Int32 | Int64
  | Uint | Uint8 | Uint16 | Uint32 | Uint64 | Uintptr
  | Float32 | Float64 | Complex64 | Complex128
  | Array | Chan | Func | Interface | Map | Ptr | Slice | String | Struct
  | UnsafePointer

text \<open>
  A \<^verbatim>\<open>reflect.Type\<close>. \<open>FileHeaderPtr\<close> is \<^verbatim>\<open>*multipart.FileHeader\<close>, the one type the
  code compares by identity; \<open>SliceOf t\<close> is a type of kind \<^verbatim>\<open>Slice\<close> with element
  type \<open>t\<close>; \<open>Other k n\<close> is any other type, of kind \<open>k\<close> (not \<^verbatim>\<open>Slice\<close>) and printed as
  \<open>n\<close>: \<open>Other Int_kind ''int''\<close>, \<open>Other Int64 ''int64''\<close>, \<open>Other Int_kind ''main.Age''\<close>.
\<close>

datatype rtype = FileHeaderPtr | SliceOf rtype | Other kind string

fun Kind :: "rtype \<Rightarrow> kind" where
  "Kind FileHeaderPtr = Ptr"
| "Kind (SliceOf t) = Slice"
| "Kind (Other k n) = k"

fun Elem :: "rtype \<Rightarrow> rtype" where
  "Elem (SliceOf t) = t"
| "Elem t = t"

definition fileHeaderPtrType :: rtype where
  "fileHeaderPtrType = FileHeaderPtr"

text \<open>What \<^verbatim>\<open>multipart.FileHeader\<close> exposes to the caller.\<close>

record FileHeader =
  Filename :: string
  Size :: int

text \<open>
  The values a field can hold. \<open>'f\<close> is the type of \<^verbatim>\<open>float64\<close> values, which this
  development never inspects. An \<^verbatim>\<open>int\<close> has 64 bits, and the only integers stored
  are results of \<open>ParseInt\<close>, which are in that range. A slice is the list of its
  elements (a nil slice and an empty one are both \<open>[]\<close>); a pointer to a file header
  is \<open>None\<close> when nil. \<open>VOpaque\<close> is a value of any other type.
\<close>

datatype 'f val =
    VString string
  | VInt int
  | VBool bool
  | VFloat 'f
  | VFile "FileHeader option"
  | VSlice "'f val list"
  | VOpaque

subsection \<open>Errors and the ways a call ends\<close>

datatype strconv_err = ErrSyntax | ErrRange

datatype error =
    NumError string string strconv_err
      \<comment> \<open>\<^verbatim>\<open>&strconv.NumError{Func, Num, Err}\<close>\<close>
  | Named string error
      \<comment> \<open>\<^verbatim>\<open>fmt.Errorf("%s: %v", name, err)\<close>\<close>
  | UnsupportedKind rtype
      \<comment> \<open>\<^verbatim>\<open>fmt.Errorf("unsupported kind %s", v.Type())\<close>\<close>
  | UnsupportedMultipartKind kind
      \<comment> \<open>\<^verbatim>\<open>fmt.Errorf("unsupported multipart kind %s", v.Kind())\<close>\<close>
  | ParseRequestMediaType error
      \<comment> \<open>\<^verbatim>\<open>fmt.Errorf("parse request media type: %v", err)\<close>\<close>
  | UnsupportedContentType string
      \<comment> \<open>\<^verbatim>\<open>fmt.Errorf("unsupported content type: %s", ct)\<close>\<close>
  | ParseRequestBodyAs string error
      \<comment> \<open>\<^verbatim>\<open>fmt.Errorf("parse request body as %s: %v", mediaType, err)\<close>\<close>
  | Foreign string
      \<comment> \<open>an error made by net/http, net/url, mime, io, encoding/json or encoding/xml\<close>

datatype 'a outcome = Ok 'a | Err error | Panic string

subsection \<open>Package strconv\<close>

definition is_digit :: "char \<Rightarrow> bool" where
  "is_digit c = (48 \<le> (of_char c :: nat) \<and> (of_char c :: nat) \<le> 57)"

definition digit_val :: "char \<Rightarrow> nat" where
  "digit_val c = (of_char c :: nat) - 48"

text \<open>
  The digit loop of \<^verbatim>\<open>strconv.ParseUint(s, 10, 64)\<close>: a byte that is no decimal
  digit is a syntax error (with an explicit base the underscore is one too), a
  value above \<open>2^64 - 1\<close> a range error, whichever the loop meets first.
\<close>

fun parse_digits :: "nat \<Rightarrow> string \<Rightarrow> strconv_err + nat" where
  "parse_digits n [] = Inr n"
| "parse_digits n (c # cs) =
     (if \<not> is_digit c then Inl ErrSyntax
      else if n * 10 + digit_val c > 2 ^ 64 - 1 then Inl ErrRange
      else parse_digits (n * 10 + digit_val c) cs)"

definition ParseUint :: "string \<Rightarrow> strconv_err + nat" where
  "ParseUint s = (if s = [] then Inl ErrSyntax else parse_digits 0 s)"

text \<open>\<^verbatim>\<open>strconv.ParseInt(s, 10, 64)\<close>.\<close>

definition ParseInt :: "string \<Rightarrow> error + int" where
  "ParseInt s0 =
     (if s0 = [] then Inl (NumError ''ParseInt'' s0 ErrSyntax)
      else
        let neg = (hd s0 = CHR ''-'');
            s = (if hd s0 = CHR ''+'' \<or> hd s0 = CHR ''-'' then tl s0 else s0)
        in case ParseUint s of
             Inl ErrSyntax \<Rightarrow> Inl (NumError ''ParseInt'' s0 ErrSyntax)
           | Inl ErrRange \<Rightarrow> Inl (NumError ''ParseInt'' s0 ErrRange)
           | Inr un \<Rightarrow>
               if \<not> neg \<and> un \<ge> 2 ^ 63 then Inl (NumError ''ParseInt'' s0 ErrRange)
               else if neg \<and> un > 2 ^ 63 then Inl (NumError ''ParseInt'' s0 ErrRange)
               else Inr (if neg then - int un else int un))"

text \<open>\<^verbatim>\<open>strconv.ParseBool\<close>: a switch over twelve literal spellings.\<close>

definition ParseBool :: "string \<Rightarrow> error + bool" where
  "ParseBool str =
     (if str \<in> set [''1'', ''t'', ''T'', ''true'', ''TRUE'', ''True''] then Inr True
      else if str \<in> set [''0'', ''f'', ''F'', ''false'', ''FALSE'', ''False''] then Inr False
      else Inl (NumError ''ParseBool'' str ErrSyntax))"

subsection \<open>populate and populatePart\<close>

text \<open>
  A \<^verbatim>\<open>reflect.Value\<close> that the binder writes to is described by its type and by
  whether it was obtained through an unexported struct field (then every
  \<^verbatim>\<open>Set\<close> panics). \<open>populate\<close> yields the value stored into it. The first argument
  stands for \<^verbatim>\<open>strconv.ParseFloat(value, 64)\<close>.
\<close>

definition set_value :: "bool \<Rightarrow> 'f val \<Rightarrow> 'f val outcome" where
  "set_value ro x =
     (if ro then Panic ''reflect: Set using value obtained using unexported field''
      else Ok x)"

definition populate ::
  "(string \<Rightarrow> error + 'f) \<Rightarrow> rtype \<Rightarrow> bool \<Rightarrow> string \<Rightarrow> 'f val outcome" where
  "populate parseFloat t ro value =
     (case Kind t of
        String \<Rightarrow> set_value ro (VString value)
      | Int_kind \<Rightarrow> (case ParseInt value of
                   Inl err \<Rightarrow> Err err
                 | Inr i \<Rightarrow> set_value ro (VInt i))
      | Bool \<Rightarrow> (case ParseBool value of
                   Inl err \<Rightarrow> Err err
                 | Inr b \<Rightarrow> set_value ro (VBool b))
      | Float64 \<Rightarrow> (case parseFloat value of
                   Inl err \<Rightarrow> Err err
                 | Inr f \<Rightarrow> set_value ro (VFloat f))
      | _ \<Rightarrow> Err (UnsupportedKind t))"

definition populatePart :: "rtype \<Rightarrow> bool \<Rightarrow> FileHeader \<Rightarrow> 'f val outcome" where
  "populatePart t ro part =
     (if fileHeaderPtrType \<noteq> t then Err (UnsupportedMultipartKind (Kind t))
      else set_value ro (VFile (Some part)))"

subsection \<open>The struct and the table of its fields\<close>

text \<open>
  A \<^verbatim>\<open>reflect.StructField\<close>: \<open>PkgPath\<close> is empty exactly for an exported field; \<open>Tag\<close>
  is the struct tag as the key/value pairs that \<^verbatim>\<open>reflect.StructTag\<close> reads from it.
\<close>

record StructField =
  Name :: string
  PkgPath :: string
  Type :: rtype
  Tag :: "(string \<times> string) list"

text \<open>\<^verbatim>\<open>tag.Get(key)\<close>: the value of the first pair with that key, or the empty string.\<close>

definition Get :: "(string \<times> string) list \<Rightarrow> string \<Rightarrow> string" where
  "Get tag key = (case map_of tag key of None \<Rightarrow> [] | Some v \<Rightarrow> v)"

text \<open>
  \<^verbatim>\<open>strings.ToLower\<close> on a string of one byte, which is all the code passes to it
  (\<^verbatim>\<open>fieldInfo.Name[:i+1]\<close> with \<^verbatim>\<open>i = 0\<close>): an ASCII capital is shifted to its small
  letter, any other ASCII byte is kept, and a byte from \<open>0x80\<close> on, which alone is
  no valid UTF-8, comes back as the encoding of U+FFFD.
\<close>

definition ToLower_byte :: "char \<Rightarrow> string" where
  "ToLower_byte c =
     (if (of_char c :: nat) < 128 then
        [if 65 \<le> (of_char c :: nat) \<and> (of_char c :: nat) \<le> 90
         then char_of ((of_char c :: nat) + 32) else c]
      else [CHR 0xEF, CHR 0xBF, CHR 0xBD])"

text \<open>
  The loop \<^verbatim>\<open>for i := range fieldInfo.Name { ...; break }\<close>: its body runs once, with
  \<^verbatim>\<open>i = 0\<close>, unless the name is empty.
\<close>

definition lower_first :: "string \<Rightarrow> string" where
  "lower_first n = (case n of [] \<Rightarrow> [] | c # cs \<Rightarrow> ToLower_byte c @ cs)"

definition external_name :: "string \<Rightarrow> StructField \<Rightarrow> string" where
  "external_name tag_key fieldInfo =
     (let name = Get (Tag fieldInfo) tag_key
      in if name = [] then lower_first (Name fieldInfo) else name)"

text \<open>
  The \<^verbatim>\<open>reflect.Value\<close> of a struct field: which field it is, its type, and whether
  it was reached through an unexported field.
\<close>

record Value =
  field_index :: nat
  value_type :: rtype
  flagRO :: bool

definition Field_at :: "StructField list \<Rightarrow> nat \<Rightarrow> Value" where
  "Field_at fs i =
     \<lparr>field_index = i, value_type = Type (fs ! i), flagRO = (PkgPath (fs ! i) \<noteq> [])\<rparr>"

text \<open>
  The loop \<^verbatim>\<open>for i := 0; i < v.NumField(); i++\<close> that fills the map \<^verbatim>\<open>fields\<close>
  (here \<open>fieldmap\<close>): a later field replaces an earlier one of the same name.
\<close>

fun build_fields ::
  "string \<Rightarrow> StructField list \<Rightarrow> nat list \<Rightarrow> (string \<rightharpoonup> Value) \<Rightarrow> (string \<rightharpoonup> Value)" where
  "build_fields tag_key fs [] fieldmap = fieldmap"
| "build_fields tag_key fs (i # is) fieldmap =
     build_fields tag_key fs is (fieldmap(external_name tag_key (fs ! i) \<mapsto> Field_at fs i))"

definition fields_of :: "string \<Rightarrow> StructField list \<Rightarrow> (string \<rightharpoonup> Value)" where
  "fields_of tag_key fs = build_fields tag_key fs [0..<length fs] Map.empty"

subsection \<open>unpack and unpackMultipart\<close>

text \<open>
  \<^verbatim>\<open>reflect.Append(f, elem)\<close> on the value held by a field of slice type. Go's typing
  makes that value a slice; the other equation is there for totality.
\<close>

fun Append :: "'f val \<Rightarrow> 'f val \<Rightarrow> 'f val outcome" where
  "Append (VSlice xs) elem = Ok (VSlice (xs @ [elem]))"
| "Append v elem = Panic ''reflect: call of reflect.Append on a value that is no slice''"

text \<open>
  The inner loop \<^verbatim>\<open>for _, value := range values\<close> of \<^verbatim>\<open>unpack\<close> and of
  \<^verbatim>\<open>unpackMultipart\<close>, whose bodies differ in the populating function only (\<open>pop\<close>).
  The element made by \<^verbatim>\<open>reflect.New(f.Type().Elem()).Elem()\<close> is settable.
\<close>

fun unpack_values ::
  "(rtype \<Rightarrow> bool \<Rightarrow> 'a \<Rightarrow> 'f val outcome) \<Rightarrow> Value \<Rightarrow> string \<Rightarrow> 'a list \<Rightarrow>
     'f val list \<Rightarrow> 'f val list \<times> unit outcome" where
  "unpack_values pop f name [] st = (st, Ok ())"
| "unpack_values pop f name (value # values) st =
     (if Kind (value_type f) = Slice then
        (case pop (Elem (value_type f)) False value of
           Err err \<Rightarrow> (st, Err (Named name err))
         | Panic msg \<Rightarrow> (st, Panic msg)
         | Ok elem \<Rightarrow>
             (case Append (st ! field_index f) elem of
                Err err \<Rightarrow> (st, Err err)
              | Panic msg \<Rightarrow> (st, Panic msg)
              | Ok appended \<Rightarrow>
                  (case set_value (flagRO f) appended of
                     Err err \<Rightarrow> (st, Err err)
                   | Panic msg \<Rightarrow> (st, Panic msg)
                   | Ok x \<Rightarrow> unpack_values pop f name values (st[field_index f := x]))))
      else
        (case pop (value_type f) (flagRO f) value of
           Err err \<Rightarrow> (st, Err (Named name err))
         | Panic msg \<Rightarrow> (st, Panic msg)
         | Ok x \<Rightarrow> unpack_values pop f name values (st[field_index f := x])))"

text \<open>
  The outer loop \<^verbatim>\<open>for name, values := range form\<close>. Go leaves the order in which
  \<^verbatim>\<open>range\<close> visits a map unspecified: \<open>names\<close> is the order in which this run visits
  the keys of \<open>form\<close>, so it is distinct and \<open>set names = dom form\<close>.
\<close>

fun unpack_range ::
  "(rtype \<Rightarrow> bool \<Rightarrow> 'a \<Rightarrow> 'f val outcome) \<Rightarrow> (string \<rightharpoonup> Value) \<Rightarrow> (string \<rightharpoonup> 'a list) \<Rightarrow>
     string list \<Rightarrow> 'f val list \<Rightarrow> 'f val list \<times> unit outcome" where
  "unpack_range pop fieldmap form [] st = (st, Ok ())"
| "unpack_range pop fieldmap form (name # names) st =
     (case fieldmap name of
        None \<Rightarrow> unpack_range pop fieldmap form names st
      | Some f \<Rightarrow>
          (case unpack_values pop f name (case form name of None \<Rightarrow> [] | Some values \<Rightarrow> values) st of
             (st', Ok u) \<Rightarrow> unpack_range pop fieldmap form names st'
           | (st', Err err) \<Rightarrow> (st', Err err)
           | (st', Panic msg) \<Rightarrow> (st', Panic msg)))"

definition unpack ::
  "(string \<Rightarrow> error + 'f) \<Rightarrow> (string \<rightharpoonup> Value) \<Rightarrow> (string \<rightharpoonup> string list) \<Rightarrow>
     string list \<Rightarrow> 'f val list \<Rightarrow> 'f val list \<times> unit outcome" where
  "unpack parseFloat fieldmap form names st =
     unpack_range (populate parseFloat) fieldmap form names st"

definition unpackMultipart ::
  "(string \<rightharpoonup> Value) \<Rightarrow> (string \<rightharpoonup> FileHeader list) \<Rightarrow>
     string list \<Rightarrow> 'f val list \<Rightarrow> 'f val list \<times> unit outcome" where
  "unpackMultipart fieldmap m names st = unpack_range populatePart fieldmap m names st"

subsection \<open>The request, and the library calls made on it\<close>

text \<open>
  The request as the code reads it: the method, the \<^verbatim>\<open>Content-Type\<close> header
  (empty when absent), the raw query of the URL, and the body, which is nil, fails
  when read, or delivers its bytes. The request is one that nothing has parsed yet
  (\<^verbatim>\<open>Form\<close>, \<^verbatim>\<open>PostForm\<close> and \<^verbatim>\<open>MultipartForm\<close> are nil) and whose URL is not nil.
\<close>

datatype req_body = NoBody | Unreadable error | Bytes string

record request =
  req_method :: string
  req_content_type :: string
  req_raw_query :: string
  req_body :: req_body

text \<open>
  The parsers of the standard library, as parameters: \<^verbatim>\<open>strconv.ParseFloat(s, 64)\<close>;
  \<^verbatim>\<open>url.ParseQuery\<close>, which returns the values it could read together with the
  first error; \<^verbatim>\<open>mime.ParseMediaType\<close>, of which the code uses the error and, when
  there is none, the media type; the multipart reader of the request followed by its
  \<^verbatim>\<open>ReadForm(maxMemory)\<close>, which yields the values and the file parts;
  \<^verbatim>\<open>json.Unmarshal\<close> and \<^verbatim>\<open>xml.Unmarshal\<close> into the struct.
\<close>

record 'f env =
  ParseFloat :: "string \<Rightarrow> error + 'f"
  ParseQuery :: "string \<Rightarrow> (string \<rightharpoonup> string list) \<times> error option"
  ParseMediaType :: "string \<Rightarrow> error + string"
  ReadForm ::
    "string \<Rightarrow> req_body \<Rightarrow> int \<Rightarrow>
       error + (string \<rightharpoonup> string list) \<times> (string \<rightharpoonup> FileHeader list)"
  json_Unmarshal :: "string \<Rightarrow> StructField list \<Rightarrow> 'f val list \<Rightarrow> 'f val list \<times> error option"
  xml_Unmarshal :: "string \<Rightarrow> StructField list \<Rightarrow> 'f val list \<Rightarrow> 'f val list \<times> error option"

text \<open>
  The header as both \<^verbatim>\<open>Unmarshal\<close> and \<^verbatim>\<open>net/http\<close> read it:
  \<^verbatim>\<open>if ct == "" { ct = "application/octet-stream" }\<close>.
\<close>

definition declared_type :: "request \<Rightarrow> string" where
  "declared_type r =
     (if req_content_type r = [] then ''application/octet-stream'' else req_content_type r)"

text \<open>\<^verbatim>\<open>copyValues\<close> of net/http: \<^verbatim>\<open>dst[k] = append(dst[k], vs...)\<close> for each key of \<open>src\<close>.\<close>

definition copyValues ::
  "(string \<rightharpoonup> 'a list) \<Rightarrow> (string \<rightharpoonup> 'a list) \<Rightarrow> (string \<rightharpoonup> 'a list)" where
  "copyValues dst src =
     (\<lambda>k. case src k of
             None \<Rightarrow> dst k
           | Some vs \<Rightarrow> Some ((case dst k of None \<Rightarrow> [] | Some ds \<Rightarrow> ds) @ vs))"

text \<open>
  \<^verbatim>\<open>parsePostForm\<close> of net/http: the body is read only under the URL-encoded media
  type, and at most 10 MB of it. A header that does not parse is an error whatever
  the body holds, and \<open>UnpackWithOption\<close> returns every error of the parse before it
  binds, so the values that come with an error are left out.
\<close>

definition parsePostForm :: "'f env \<Rightarrow> request \<Rightarrow> (string \<rightharpoonup> string list) \<times> error option" where
  "parsePostForm env r =
     (case req_body r of
        NoBody \<Rightarrow> (Map.empty, Some (Foreign ''missing form body''))
      | b \<Rightarrow>
          (case ParseMediaType env (declared_type r) of
             Inl err \<Rightarrow> (Map.empty, Some err)
           | Inr ct \<Rightarrow>
               if ct = ''application/x-www-form-urlencoded'' then
                 (case b of
                    NoBody \<Rightarrow> (Map.empty, Some (Foreign ''missing form body''))
                  | Unreadable e \<Rightarrow> (Map.empty, Some e)
                  | Bytes bs \<Rightarrow>
                      if 10 * 2 ^ 20 < length bs
                      then (Map.empty, Some (Foreign ''http: POST too large''))
                      else ParseQuery env bs)
               else (Map.empty, None)))"

text \<open>What the request holds once parsed.\<close>

record parsed =
  PostForm :: "string \<rightharpoonup> string list"
  Form :: "string \<rightharpoonup> string list"
  MultipartForm_File :: "string \<rightharpoonup> FileHeader list"

text \<open>
  \<^verbatim>\<open>r.ParseForm()\<close>: the body's values for POST, PUT and PATCH, then in \<^verbatim>\<open>Form\<close> the
  query's values appended after the body's; the first error met is returned.
\<close>

definition ParseForm :: "'f env \<Rightarrow> request \<Rightarrow> parsed \<times> error option" where
  "ParseForm env r =
     (let (post, err) =
            (if req_method r = ''POST'' \<or> req_method r = ''PUT'' \<or> req_method r = ''PATCH''
             then parsePostForm env r else (Map.empty, None));
          (newValues, e) = ParseQuery env (req_raw_query r)
      in (\<lparr>PostForm = post, Form = copyValues post newValues, MultipartForm_File = Map.empty\<rparr>,
          if err = None then e else err))"

text \<open>\<^verbatim>\<open>r.ParseMultipartForm(maxMemory)\<close>.\<close>

definition ParseMultipartForm :: "'f env \<Rightarrow> request \<Rightarrow> int \<Rightarrow> parsed \<times> error option" where
  "ParseMultipartForm env r maxMemory =
     (let (p, parseFormErr) = ParseForm env r
      in (case ReadForm env (req_content_type r) (req_body r) maxMemory of
            Inl err \<Rightarrow> (p, Some err)
          | Inr (val, file) \<Rightarrow>
              (\<lparr>PostForm = copyValues (PostForm p) val, Form = copyValues (Form p) val,
                MultipartForm_File = file\<rparr>, parseFormErr)))"

text \<open>\<^verbatim>\<open>r.URL.Query()\<close>, which drops the error of \<^verbatim>\<open>url.ParseQuery\<close>.\<close>

definition URL_Query :: "'f env \<Rightarrow> request \<Rightarrow> (string \<rightharpoonup> string list)" where
  "URL_Query env r = fst (ParseQuery env (req_raw_query r))"

subsection \<open>UnpackWithOption\<close>

text \<open>\<^verbatim>\<open>Option\<close> is an integer type; \<open>Undeclared n\<close> is a value other than the five constants.\<close>

datatype Option = Body | Query | Multipart | Mixed | MixedMultipart | Undeclared int

text \<open>The two package variables, and their values when the program starts.\<close>

record config =
  FieldTag :: string
  MultipartMaxMemory :: int

definition initial_config :: config where
  "initial_config = \<lparr>FieldTag = ''json'', MultipartMaxMemory = 10 * 1024\<rparr>"

text \<open>
  \<open>names\<close> is the order in which the \<^verbatim>\<open>range\<close> of \<^verbatim>\<open>unpack\<close> visits its map, \<open>parts\<close>
  the order in which that of \<^verbatim>\<open>unpackMultipart\<close> does; \<open>fs\<close> and \<open>st\<close> are the struct
  that \<^verbatim>\<open>ptr\<close> points to.
\<close>

fun continue_multipart ::
  "(string \<rightharpoonup> Value) \<Rightarrow> (string \<rightharpoonup> FileHeader list) \<Rightarrow> string list \<Rightarrow>
     'f val list \<times> unit outcome \<Rightarrow> 'f val list \<times> unit outcome" where
  "continue_multipart fieldmap m parts (st, Ok u) = unpackMultipart fieldmap m parts st"
| "continue_multipart fieldmap m parts (st, Err err) = (st, Err err)"
| "continue_multipart fieldmap m parts (st, Panic msg) = (st, Panic msg)"

definition UnpackWithOption ::
  "'f env \<Rightarrow> config \<Rightarrow> string list \<Rightarrow> string list \<Rightarrow> request \<Rightarrow> StructField list \<Rightarrow>
     'f val list \<Rightarrow> Option \<Rightarrow> 'f val list \<times> unit outcome" where
  "UnpackWithOption env cfg names parts r fs st option =
     (case (if option = Multipart \<or> option = MixedMultipart
            then ParseMultipartForm env r (MultipartMaxMemory cfg)
            else ParseForm env r) of
        (p, Some err) \<Rightarrow> (st, Err err)
      | (p, None) \<Rightarrow>
          (let fieldmap = fields_of (FieldTag cfg) fs
           in (case option of
                 Query \<Rightarrow> unpack (ParseFloat env) fieldmap (URL_Query env r) names st
               | Mixed \<Rightarrow> unpack (ParseFloat env) fieldmap (Form p) names st
               | Multipart \<Rightarrow>
                   continue_multipart fieldmap (MultipartForm_File p) parts
                     (unpack (ParseFloat env) fieldmap (PostForm p) names st)
               | MixedMultipart \<Rightarrow>
                   continue_multipart fieldmap (MultipartForm_File p) parts
                     (unpack (ParseFloat env) fieldmap (Form p) names st)
               | _ \<Rightarrow> unpack (ParseFloat env) fieldmap (PostForm p) names st)))"

definition Unpack ::
  "'f env \<Rightarrow> config \<Rightarrow> string list \<Rightarrow> string list \<Rightarrow> request \<Rightarrow> StructField list \<Rightarrow>
     'f val list \<Rightarrow> 'f val list \<times> unit outcome" where
  "Unpack env cfg names parts r fs st = UnpackWithOption env cfg names parts r fs st Body"

subsection \<open>Unmarshal\<close>

text \<open>
  \<^verbatim>\<open>unmarshal\<close>: read the whole body and hand it to the decoder. Reading a nil body
  is a nil dereference.
\<close>

definition unmarshal ::
  "request \<Rightarrow> (string \<Rightarrow> StructField list \<Rightarrow> 'f val list \<Rightarrow> 'f val list \<times> error option) \<Rightarrow>
     StructField list \<Rightarrow> 'f val list \<Rightarrow> 'f val list \<times> unit outcome" where
  "unmarshal r unmarshaler fs st =
     (case req_body r of
        NoBody \<Rightarrow> (st, Panic ''invalid memory address or nil pointer dereference'')
      | Unreadable err \<Rightarrow> (st, Err err)
      | Bytes b \<Rightarrow>
          (case unmarshaler b fs st of
             (st', None) \<Rightarrow> (st', Ok ())
           | (st', Some err) \<Rightarrow> (st', Err err)))"

text \<open>The tail of \<^verbatim>\<open>Unmarshal\<close>: \<^verbatim>\<open>if err != nil { return fmt.Errorf(...) }; return nil\<close>.\<close>

fun as_body_error :: "string \<Rightarrow> 'f val list \<times> unit outcome \<Rightarrow> 'f val list \<times> unit outcome" where
  "as_body_error mediaType (st, Err err) = (st, Err (ParseRequestBodyAs mediaType err))"
| "as_body_error mediaType (st, Ok u) = (st, Ok u)"
| "as_body_error mediaType (st, Panic msg) = (st, Panic msg)"

definition Unmarshal ::
  "'f env \<Rightarrow> config \<Rightarrow> string list \<Rightarrow> string list \<Rightarrow> request \<Rightarrow> StructField list \<Rightarrow>
     'f val list \<Rightarrow> 'f val list \<times> unit outcome" where
  "Unmarshal env cfg names parts r fs st =
     (if req_method r = ''GET'' \<or> req_method r = ''DELETE'' \<or> req_method r = ''HEAD'' \<or>
         req_method r = ''TRACE''
      then UnpackWithOption env cfg names parts r fs st Query
      else
        let ct = declared_type r
        in (case ParseMediaType env ct of
             Inl err \<Rightarrow> (st, Err (ParseRequestMediaType err))
           | Inr mediaType \<Rightarrow>
               if mediaType = ''application/json''
               then as_body_error mediaType (unmarshal r (json_Unmarshal env) fs st)
               else if mediaType = ''application/xml''
               then as_body_error mediaType (unmarshal r (xml_Unmarshal env) fs st)
               else if mediaType = ''multipart/form-data''
               then as_body_error mediaType
                      (UnpackWithOption env cfg names parts r fs st Multipart)
               else if mediaType = ''application/x-www-form-urlencoded''
               then as_body_error mediaType (UnpackWithOption env cfg names parts r fs st Body)
               else (st, Err (UnsupportedContentType ct))))"

subsection \<open>Test data\<close>

text \<open>
  Inputs for evaluating the functions above: a float parser that accepts nothing, the
  struct of \<^verbatim>\<open>TestUnpack\<close> without its \<^verbatim>\<open>float64\<close> field, \<^verbatim>\<open>url.ParseQuery\<close> on
  the strings that are used below, and a media type parser that cuts the header at
  the first semicolon.
\<close>

definition no_float :: "string \<Rightarrow> error + unit" where
  "no_float s = Inl (NumError ''ParseFloat'' s ErrSyntax)"

definition Params :: "StructField list" where
  "Params =
     [\<lparr>Name = ''Q'', PkgPath = [], Type = Other String ''string'', Tag = [(''json'', ''q'')]\<rparr>,
      \<lparr>Name = ''Int'', PkgPath = [], Type = Other Int_kind ''int'', Tag = [(''json'', ''int'')]\<rparr>,
      \<lparr>Name = ''Bool'', PkgPath = [], Type = Other Bool ''bool'', Tag = [(''json'', ''bool'')]\<rparr>,
      \<lparr>Name = ''Array'', PkgPath = [], Type = SliceOf (Other Int_kind ''int''),
        Tag = [(''json'', ''array'')]\<rparr>,
      \<lparr>Name = ''Default'', PkgPath = [], Type = Other String ''string'',
        Tag = [(''json'', ''default'')]\<rparr>]"

definition test_ParseQuery :: "string \<Rightarrow> (string \<rightharpoonup> string list) \<times> error option" where
  "test_ParseQuery s =
     (if s = ''default=888'' then ([''default'' \<mapsto> [''888'']], None)
      else if s = ''default=999'' then ([''default'' \<mapsto> [''999'']], None)
      else if s = ''array=1&array=2&array=3'' then ([''array'' \<mapsto> [''1'', ''2'', ''3'']], None)
      else if s = ''extra=1&q=golang'' then ([''extra'' \<mapsto> [''1''], ''q'' \<mapsto> [''golang'']], None)
      else (Map.empty, None))"

definition test_env :: "unit env" where
  "test_env =
     \<lparr>ParseFloat = no_float,
      ParseQuery = test_ParseQuery,
      ParseMediaType = (\<lambda>s. Inr (takeWhile (\<lambda>c. c \<noteq> CHR '';'') s)),
      ReadForm = (\<lambda>ct b n. Inl (Foreign ''request Content-Type isn't multipart/form-data'')),
      json_Unmarshal = (\<lambda>b fs st. (st, None)),
      xml_Unmarshal = (\<lambda>b fs st. (st, None))\<rparr>"

definition test_request :: "string \<Rightarrow> string \<Rightarrow> string \<Rightarrow> string \<Rightarrow> request" where
  "test_request m ct q b =
     \<lparr>req_method = m, req_content_type = ct, req_raw_query = q, req_body = Bytes b\<rparr>"

text \<open>The record of the specification's example: a text field and an integer field, no tags.\<close>

definition test_A :: StructField where
  "test_A = \<lparr>Name = ''A'', PkgPath = [], Type = Other String ''string'', Tag = []\<rparr>"

definition test_B :: StructField where
  "test_B = \<lparr>Name = ''B'', PkgPath = [], Type = Other Int_kind ''int'', Tag = []\<rparr>"

section \<open>Properties\<close>

subsection \<open>The two loops\<close>

lemma unpack_values_length:
  "length (fst (unpack_values pop f name vs st)) = length st"
  by (induction vs arbitrary: st) (auto split: outcome.splits)

lemma unpack_values_frame:
  "i \<noteq> field_index f \<Longrightarrow> fst (unpack_values pop f name vs st) ! i = st ! i"
  by (induction vs arbitrary: st) (auto split: outcome.splits)

lemma unpack_range_length:
  "length (fst (unpack_range pop fm form names st)) = length st"
proof (induction names arbitrary: st)
  case Nil
  then show ?case by simp
next
  case (Cons k ks)
  show ?case
  proof (cases "fm k")
    case None
    then show ?thesis using Cons by simp
  next
    case (Some f)
    obtain st' oc where r: "unpack_values pop f k (case form k of None \<Rightarrow> [] | Some v \<Rightarrow> v) st = (st', oc)"
      by (cases "unpack_values pop f k (case form k of None \<Rightarrow> [] | Some v \<Rightarrow> v) st")
    have "length st' = length st"
      using unpack_values_length [of pop f k "(case form k of None \<Rightarrow> [] | Some v \<Rightarrow> v)" st] r by simp
    then show ?thesis using Some r Cons [of st'] by (cases oc) simp_all
  qed
qed

lemma unpack_range_frame:
  "\<forall>k \<in> set names. \<forall>f. fm k = Some f \<longrightarrow> field_index f \<noteq> i \<Longrightarrow>
   fst (unpack_range pop fm form names st) ! i = st ! i"
proof (induction names arbitrary: st)
  case Nil
  then show ?case by simp
next
  case (Cons k ks)
  have rest: "\<forall>k \<in> set ks. \<forall>f. fm k = Some f \<longrightarrow> field_index f \<noteq> i"
    using Cons.prems by simp
  show ?case
  proof (cases "fm k")
    case None
    then show ?thesis using Cons.IH [OF rest] by simp
  next
    case (Some f)
    obtain st' oc where r: "unpack_values pop f k (case form k of None \<Rightarrow> [] | Some v \<Rightarrow> v) st = (st', oc)"
      by (cases "unpack_values pop f k (case form k of None \<Rightarrow> [] | Some v \<Rightarrow> v) st")
    have ne: "i \<noteq> field_index f" using Cons.prems Some by auto
    have "st' ! i = st ! i"
      using unpack_values_frame [OF ne, of pop k "(case form k of None \<Rightarrow> [] | Some v \<Rightarrow> v)" st] r by simp
    moreover have "fst (unpack_range pop fm form ks st') ! i = st' ! i"
      using Cons.IH [OF rest] .
    ultimately show ?thesis using Some r by (cases oc) simp_all
  qed
qed

lemma unpack_range_filter:
  "unpack_range pop fm form names st =
   unpack_range pop fm form (filter (\<lambda>k. fm k \<noteq> None) names) st"
  by (induction names arbitrary: st) (auto split: option.splits outcome.splits prod.splits)

lemma unpack_range_append:
  "unpack_range pop fm form (xs @ ys) st =
   (case unpack_range pop fm form xs st of
      (st', Ok u) \<Rightarrow> unpack_range pop fm form ys st'
    | (st', Err e) \<Rightarrow> (st', Err e)
    | (st', Panic m) \<Rightarrow> (st', Panic m))"
  by (induction xs arbitrary: st) (auto split: option.splits outcome.splits prod.splits)

lemma build_fields_Some:
  "build_fields tag fs js m k = Some f \<Longrightarrow>
   m k = Some f \<or> (\<exists>j \<in> set js. f = Field_at fs j \<and> external_name tag (fs ! j) = k)"
  by (induction js arbitrary: m) (fastforce split: if_splits)+

lemma build_fields_dom:
  "dom (build_fields tag fs js m) = dom m \<union> (\<lambda>j. external_name tag (fs ! j)) ` set js"
  by (induction js arbitrary: m) auto

lemma fields_of_Some:
  "fields_of tag fs k = Some f \<Longrightarrow>
   field_index f < length fs \<and> f = Field_at fs (field_index f) \<and>
   external_name tag (fs ! field_index f) = k"
  using build_fields_Some [of tag fs "[0..<length fs]" Map.empty k f]
  by (auto simp: fields_of_def Field_at_def)

lemma fields_of_None:
  "fields_of tag fs k = None \<longleftrightarrow> k \<notin> external_name tag ` set fs"
proof -
  have "set fs = nth fs ` {0..<length fs}"
    using nth_image [of "length fs" fs] by simp
  then have "external_name tag ` set fs = (\<lambda>j. external_name tag (fs ! j)) ` {0..<length fs}"
    by (simp add: image_image)
  then have "dom (fields_of tag fs) = external_name tag ` set fs"
    unfolding fields_of_def build_fields_dom by simp
  then show ?thesis by (metis domIff)
qed

lemma unpack_values_scalar_last:
  assumes "Kind (value_type f) \<noteq> Slice" "vs \<noteq> []" "field_index f < length st"
      and "unpack_values pop f name vs st = (st', Ok u)"
  shows "pop (value_type f) (flagRO f) (last vs) = Ok (st' ! field_index f)"
  using assms
proof (induction vs arbitrary: st)
  case Nil
  then show ?case by simp
next
  case (Cons v vs)
  from Cons.prems(1,4) obtain x where x: "pop (value_type f) (flagRO f) v = Ok x"
    and rest: "unpack_values pop f name vs (st[field_index f := x]) = (st', Ok u)"
    by (auto split: outcome.splits)
  show ?case
  proof (cases "vs = []")
    case True
    then have "st' = st[field_index f := x]" using rest by simp
    then show ?thesis using x True Cons.prems(3) by simp
  next
    case False
    then show ?thesis
      using Cons.IH [OF Cons.prems(1) False _ rest] Cons.prems(3) by simp
  qed
qed

lemma unpack_values_slice_appends:
  assumes "Kind (value_type f) = Slice" "field_index f < length st"
      and "st ! field_index f = VSlice xs"
      and "unpack_values pop f name vs st = (st', Ok u)"
  shows "\<exists>ys. st' ! field_index f = VSlice (xs @ ys) \<and>
              list_all2 (\<lambda>v y. pop (Elem (value_type f)) False v = Ok y) vs ys"
  using assms
proof (induction vs arbitrary: st xs)
  case Nil
  then show ?case by simp
next
  case (Cons v vs)
  from Cons.prems(1,3,4) obtain elem x where e: "pop (Elem (value_type f)) False v = Ok elem"
    and x: "set_value (flagRO f) (VSlice (xs @ [elem])) = Ok x"
    and rest: "unpack_values pop f name vs (st[field_index f := x]) = (st', Ok u)"
    by (auto split: outcome.splits)
  have xv: "x = VSlice (xs @ [elem])" using x by (auto simp: set_value_def split: if_splits)
  have "(st[field_index f := x]) ! field_index f = VSlice ((xs @ [elem]))"
    using Cons.prems(2) xv by simp
  from Cons.IH [OF Cons.prems(1) _ this rest] Cons.prems(2)
  obtain ys where "st' ! field_index f = VSlice ((xs @ [elem]) @ ys)"
    and "list_all2 (\<lambda>v y. pop (Elem (value_type f)) False v = Ok y) vs ys"
    by auto
  then have "st' ! field_index f = VSlice (xs @ (elem # ys)) \<and>
     list_all2 (\<lambda>v y. pop (Elem (value_type f)) False v = Ok y) (v # vs) (elem # ys)"
    using e by simp
  then show ?case by blast
qed

lemma unpack_range_at_key:
  assumes inj: "\<forall>k' f'. fm k' = Some f' \<and> field_index f' = field_index f \<longrightarrow> k' = k"
      and fk: "fm k = Some f" and ys: "k \<notin> set ys"
      and ok: "unpack_range pop fm form (xs @ k # ys) st = (st', Ok u)"
  shows "\<exists>st1 st2. unpack_range pop fm form xs st = (st1, Ok ()) \<and>
           unpack_values pop f k (case form k of None \<Rightarrow> [] | Some vs \<Rightarrow> vs) st1 = (st2, Ok ()) \<and>
           st' ! field_index f = st2 ! field_index f"
proof -
  obtain st1 o1 where r1: "unpack_range pop fm form xs st = (st1, o1)"
    by (cases "unpack_range pop fm form xs st")
  have o1: "o1 = Ok ()" using ok r1 by (cases o1) (simp_all add: unpack_range_append)
  have r2: "unpack_range pop fm form (k # ys) st1 = (st', Ok u)"
    using ok r1 o1 by (simp add: unpack_range_append)
  obtain st2 o2 where r3:
    "unpack_values pop f k (case form k of None \<Rightarrow> [] | Some vs \<Rightarrow> vs) st1 = (st2, o2)"
    by (cases "unpack_values pop f k (case form k of None \<Rightarrow> [] | Some vs \<Rightarrow> vs) st1")
  have o2: "o2 = Ok ()" using r2 r3 fk by (cases o2) simp_all
  have r4: "unpack_range pop fm form ys st2 = (st', Ok u)" using r2 r3 fk o2 by simp
  have "\<forall>k' \<in> set ys. \<forall>f'. fm k' = Some f' \<longrightarrow> field_index f' \<noteq> field_index f"
    using inj ys by blast
  from unpack_range_frame [OF this, of pop form st2] r4
  have "st' ! field_index f = st2 ! field_index f" by simp
  then show ?thesis using r1 o1 r3 o2 by simp
qed

lemma fields_of_inj:
  assumes "fields_of tag fs k = Some f"
  shows "\<forall>k' f'. fields_of tag fs k' = Some f' \<and> field_index f' = field_index f \<longrightarrow> k' = k"
  using fields_of_Some [OF assms] fields_of_Some by metis

lemma ParseForm_Form:
  "Form (fst (ParseForm env r)) = copyValues (PostForm (fst (ParseForm env r))) (URL_Query env r)"
  by (simp add: ParseForm_def URL_Query_def split: prod.splits)

lemma UnpackWithOption_plain:
  assumes "option = Query \<or> option = Body \<or> option = Mixed"
  shows "UnpackWithOption env cfg names parts r fs st option =
     (case snd (ParseForm env r) of
        Some err \<Rightarrow> (st, Err err)
      | None \<Rightarrow> unpack (ParseFloat env) (fields_of (FieldTag cfg) fs)
          (if option = Query then URL_Query env r
           else if option = Mixed then Form (fst (ParseForm env r))
           else PostForm (fst (ParseForm env r))) names st)"
proof -
  obtain p err where pe: "ParseForm env r = (p, err)" by (cases "ParseForm env r")
  show ?thesis using assms
    by (cases err) (auto simp: UnpackWithOption_def pe)
qed

lemma unpack_range_scalar_key:
  assumes fk: "fields_of tag fs k = Some f" and sc: "Kind (value_type f) \<noteq> Slice"
      and vs: "form k = Some vs" "vs \<noteq> []"
      and len: "length st = length fs" and k: "k \<in> set names"
      and ok: "unpack_range pop (fields_of tag fs) form names st = (st', Ok u)"
  shows "pop (value_type f) (flagRO f) (last vs) = Ok (st' ! field_index f)"
proof -
  from split_list_last [OF k] obtain xs ys where n: "names = xs @ k # ys" and ys: "k \<notin> set ys"
    by blast
  from unpack_range_at_key [OF fields_of_inj [OF fk] fk ys ok [unfolded n]]
  obtain st1 st2 where r1: "unpack_range pop (fields_of tag fs) form xs st = (st1, Ok ())"
    and r2: "unpack_values pop f k vs st1 = (st2, Ok ())"
    and e: "st' ! field_index f = st2 ! field_index f"
    using vs(1) by auto
  have "length st1 = length st"
    using unpack_range_length [of pop "fields_of tag fs" form xs st] r1 by simp
  then have "field_index f < length st1" using fields_of_Some [OF fk] len by simp
  from unpack_values_scalar_last [OF sc vs(2) this r2] e show ?thesis by simp
qed

lemma unpack_range_slice_key:
  assumes fk: "fields_of tag fs k = Some f" and sl: "Kind (value_type f) = Slice"
      and vs: "form k = Some vs"
      and len: "length st = length fs" and cur: "st ! field_index f = VSlice xs"
      and k: "k \<in> set names" and d: "distinct names"
      and ok: "unpack_range pop (fields_of tag fs) form names st = (st', Ok u)"
  shows "\<exists>ys. st' ! field_index f = VSlice (xs @ ys) \<and>
              list_all2 (\<lambda>v y. pop (Elem (value_type f)) False v = Ok y) vs ys"
proof -
  from split_list [OF k] obtain ps qs where n: "names = ps @ k # qs" by blast
  have qs: "k \<notin> set qs" and ps: "k \<notin> set ps" using d n by auto
  from unpack_range_at_key [OF fields_of_inj [OF fk] fk qs ok [unfolded n]]
  obtain st1 st2 where r1: "unpack_range pop (fields_of tag fs) form ps st = (st1, Ok ())"
    and r2: "unpack_values pop f k vs st1 = (st2, Ok ())"
    and e: "st' ! field_index f = st2 ! field_index f"
    using vs by auto
  have "length st1 = length st"
    using unpack_range_length [of pop "fields_of tag fs" form ps st] r1 by simp
  then have i: "field_index f < length st1" using fields_of_Some [OF fk] len by simp
  have "\<forall>k' \<in> set ps. \<forall>f'. fields_of tag fs k' = Some f' \<longrightarrow> field_index f' \<noteq> field_index f"
    using fields_of_inj [OF fk] ps by blast
  from unpack_range_frame [OF this, of pop form st] r1
  have "st1 ! field_index f = VSlice xs" using cur by simp
  from unpack_values_slice_appends [OF sl i this r2] e show ?thesis by simp
qed

lemma populate_123:
  assumes "Kind t = Int_kind"
      and "list_all2 (\<lambda>v y. populate parseFloat t False v = Ok y) [''1'', ''2'', ''3''] ys"
  shows "ys = [VInt 1, VInt 2, VInt 3]"
proof -
  have p: "populate parseFloat t False ''1'' = Ok (VInt 1)"
      "populate parseFloat t False ''2'' = Ok (VInt 2)"
      "populate parseFloat t False ''3'' = Ok (VInt 3)"
    using assms(1)
    by (simp_all add: populate_def ParseInt_def ParseUint_def is_digit_def digit_val_def
        set_value_def)
  from assms(2) show ?thesis by (auto simp: list_all2_Cons1 p)
qed

subsection \<open>Coercion\<close>




text \<open>
  Claim C4, as amended. A settable destination of kind \<^verbatim>\<open>Bool\<close> takes exactly the
  twelve spellings of \<^verbatim>\<open>strconv.ParseBool\<close>: \<^verbatim>\<open>1 t T true TRUE True\<close> for true,
  \<^verbatim>\<open>0 f F false FALSE False\<close> for false. Every other string is an error; the match is
  on the literal spelling, not case-insensitive.
\<close>

theorem populate_bool_spellings:
  assumes "Kind t = Bool"
  shows "populate parseFloat t False value =
     (if value \<in> {''1'', ''t'', ''T'', ''true'', ''TRUE'', ''True''} then Ok (VBool True)
      else if value \<in> {''0'', ''f'', ''F'', ''false'', ''FALSE'', ''False''} then Ok (VBool False)
      else Err (NumError ''ParseBool'' value ErrSyntax))"
  using assms by (simp add: populate_def ParseBool_def set_value_def)

theorem populate_bool_spellings_witness:
  "populate no_float (Other Bool ''bool'') False ''True'' = Ok (VBool True)"
  using populate_bool_spellings [of "Other Bool ''bool''" no_float "''True''"] by simp

text \<open>
  Claim C4 as stated fails: \<^verbatim>\<open>tRUE\<close> is \<^verbatim>\<open>true\<close> up to case, and is refused.
\<close>

theorem populate_bool_mixed_case_refused:
  "populate no_float (Other Bool ''bool'') False ''tRUE'' =
     Err (NumError ''ParseBool'' ''tRUE'' ErrSyntax)"
  by (simp add: populate_def ParseBool_def)

subsection \<open>Configuration\<close>

text \<open>
  Claim C8. The comment on \<^verbatim>\<open>MultipartMaxMemory\<close> says \<^verbatim>\<open>Default to 10M\<close>; the value
  the variable starts with is \<open>10 * 1024 = 10240\<close>, not \<open>10 * 1024 * 1024\<close>.
\<close>

theorem MultipartMaxMemory_initial:
  "MultipartMaxMemory initial_config = 10240 \<and>
   MultipartMaxMemory initial_config \<noteq> 10 * 1024 * 1024"
  by (simp add: initial_config_def)

subsection \<open>External names\<close>

lemma external_name_tagged:
  "Get (Tag fieldInfo) key \<noteq> [] \<Longrightarrow> external_name key fieldInfo = Get (Tag fieldInfo) key"
  by (simp add: external_name_def)

lemma external_name_ascii:
  "Get (Tag fieldInfo) key = [] \<Longrightarrow> Name fieldInfo = c # cs \<Longrightarrow> (of_char c :: nat) < 128 \<Longrightarrow>
   external_name key fieldInfo =
     (if 65 \<le> (of_char c :: nat) \<and> (of_char c :: nat) \<le> 90
      then char_of ((of_char c :: nat) + 32) else c) # cs"
  by (simp add: external_name_def lower_first_def ToLower_byte_def)

text \<open>
  Claim C5. With a tag under the active key the tag's value is the name, and an
  identifier that starts with an ASCII letter gets that letter in lower case (the two
  lemmas above). An identifier that starts with a letter of several bytes does not:
  the code lower-cases the first byte, not the first character. For the field
  \<^verbatim>\<open>Uber\<close> with U umlaut (bytes C3 9C 62 65 72) without a tag the name is not the same with u umlaut
  (C3 BC 62 65 72) but EF BF BD 9C 62 65 72.
\<close>

theorem external_name_first_byte_only:
  "external_name ''json''
     \<lparr>Name = [CHR 0xC3, CHR 0x9C, CHR ''b'', CHR ''e'', CHR ''r''], PkgPath = [],
      Type = Other String ''string'', Tag = []\<rparr>
   = [CHR 0xEF, CHR 0xBF, CHR 0xBD, CHR 0x9C, CHR ''b'', CHR ''e'', CHR ''r'']"
  by (simp add: external_name_def lower_first_def ToLower_byte_def Get_def)

subsection \<open>What a bind leaves alone\<close>

lemma unpack_range_fields_frame:
  assumes "external_name tag (fs ! i) \<notin> set names"
  shows "fst (unpack_range pop (fields_of tag fs) form names st) ! i = st ! i"
proof (rule unpack_range_frame, intro ballI allI impI)
  fix k f
  assume k: "k \<in> set names" and f: "fields_of tag fs k = Some f"
  show "field_index f \<noteq> i"
  proof
    assume "field_index f = i"
    then have "external_name tag (fs ! i) = k" using fields_of_Some [OF f] by simp
    then show False using k assms by simp
  qed
qed

lemma continue_multipart_frame:
  assumes "external_name tag (fs ! i) \<notin> set parts"
  shows "fst (continue_multipart (fields_of tag fs) m parts (st, oc)) ! i = st ! i"
  using unpack_range_fields_frame [OF assms, of populatePart m st]
  by (cases oc) (simp_all add: unpackMultipart_def)

lemma UnpackWithOption_frame:
  assumes n: "external_name (FieldTag cfg) (fs ! i) \<notin> set names"
      and p: "external_name (FieldTag cfg) (fs ! i) \<notin> set parts"
  shows "fst (UnpackWithOption env cfg names parts r fs st option) ! i = st ! i"
proof -
  let ?fm = "fields_of (FieldTag cfg) fs"
  have u: "fst (unpack (ParseFloat env) ?fm form names st) ! i = st ! i" for form
    using unpack_range_fields_frame [OF n] by (simp add: unpack_def)
  have c: "fst (continue_multipart ?fm m parts (unpack (ParseFloat env) ?fm form names st)) ! i = st ! i"
    for m form
    using continue_multipart_frame [OF p, of m "fst (unpack (ParseFloat env) ?fm form names st)"
        "snd (unpack (ParseFloat env) ?fm form names st)"] u [of form]
    by simp
  obtain pd err where pr: "(if option = Multipart \<or> option = MixedMultipart
            then ParseMultipartForm env r (MultipartMaxMemory cfg)
            else ParseForm env r) = (pd, err)"
    by (cases "(if option = Multipart \<or> option = MixedMultipart
            then ParseMultipartForm env r (MultipartMaxMemory cfg)
            else ParseForm env r)")
  show ?thesis
  proof (cases err)
    case (Some e)
    then show ?thesis using pr by (simp add: UnpackWithOption_def)
  next
    case None
    then show ?thesis using pr u c
      by (cases option) (simp_all add: UnpackWithOption_def Let_def)
  qed
qed

lemma filter_known:
  "filter (\<lambda>k. fields_of tag fs k \<noteq> None) names = filter (\<lambda>k. k \<in> external_name tag ` set fs) names"
  by (rule filter_cong) (simp_all add: fields_of_None)

lemma unpack_range_known:
  "unpack_range pop (fields_of tag fs) form names st =
   unpack_range pop (fields_of tag fs) form (filter (\<lambda>k. k \<in> external_name tag ` set fs) names) st"
  unfolding filter_known [symmetric] by (rule unpack_range_filter)

lemma continue_multipart_known:
  "continue_multipart (fields_of tag fs) m parts x =
   continue_multipart (fields_of tag fs) m (filter (\<lambda>k. k \<in> external_name tag ` set fs) parts) x"
proof -
  obtain st oc where x: "x = (st, oc)" by (cases x)
  show ?thesis unfolding x
    using unpack_range_known [of populatePart tag fs m parts st]
    by (cases oc) (simp_all add: unpackMultipart_def)
qed

lemma UnpackWithOption_known:
  fixes env :: "'f env"
  shows "UnpackWithOption env cfg names parts r fs st option =
   UnpackWithOption env cfg
     (filter (\<lambda>k. k \<in> external_name (FieldTag cfg) ` set fs) names)
     (filter (\<lambda>k. k \<in> external_name (FieldTag cfg) ` set fs) parts) r fs st option"
proof -
  let ?fm = "fields_of (FieldTag cfg) fs"
  let ?K = "\<lambda>k. k \<in> external_name (FieldTag cfg) ` set fs"
  have u: "unpack (ParseFloat env) ?fm form names st = unpack (ParseFloat env) ?fm form (filter ?K names) st" for form
    using unpack_range_known [of "populate (ParseFloat env)" "FieldTag cfg" fs form names st]
    by (simp add: unpack_def)
  have c: "continue_multipart ?fm m parts x = continue_multipart ?fm m (filter ?K parts) x"
    for m and x :: "'f val list \<times> unit outcome"
    by (rule continue_multipart_known)
  obtain pd err where pr: "(if option = Multipart \<or> option = MixedMultipart
            then ParseMultipartForm env r (MultipartMaxMemory cfg)
            else ParseForm env r) = (pd, err)"
    by (cases "(if option = Multipart \<or> option = MixedMultipart
            then ParseMultipartForm env r (MultipartMaxMemory cfg)
            else ParseForm env r)")
  show ?thesis
  proof (cases err)
    case (Some e)
    then show ?thesis using pr by (simp add: UnpackWithOption_def)
  next
    case None
    show ?thesis
      unfolding UnpackWithOption_def pr None
      by (cases option) (simp_all add: Let_def u [symmetric] c [symmetric])
  qed
qed

lemma Params_names:
  "map (external_name ''json'') Params = [''q'', ''int'', ''bool'', ''array'', ''default'']"
  by (simp add: Params_def external_name_def Get_def)

text \<open>
  Claim C9. Whatever the option and however the call ends, a field whose external
  name is no key that the loops visit holds the value it held before the call; and
  the keys that are no field's external name can be struck from the value sources
  without changing the state reached or the way the call ends.
\<close>

theorem unmatched_left_alone:
  "(\<forall>i < length fs.
      external_name (FieldTag cfg) (fs ! i) \<notin> set names \<union> set parts \<longrightarrow>
      fst (UnpackWithOption env cfg names parts r fs st option) ! i = st ! i) \<and>
   UnpackWithOption env cfg names parts r fs st option =
   UnpackWithOption env cfg
     (filter (\<lambda>k. k \<in> external_name (FieldTag cfg) ` set fs) names)
     (filter (\<lambda>k. k \<in> external_name (FieldTag cfg) ` set fs) parts) r fs st option"
  using UnpackWithOption_frame [of cfg fs _ names parts env r st option]
    UnpackWithOption_known [of env cfg names parts r fs st option]
  by simp

theorem unmatched_left_alone_witness:
  "fst (UnpackWithOption test_env initial_config [''extra'', ''q''] []
          (test_request ''GET'' [] ''extra=1&q=golang'' []) Params
          [VString [], VInt 0, VBool False, VSlice [], VString ''2333''] Query) ! 4
     = VString ''2333'' \<and>
   UnpackWithOption test_env initial_config [''extra'', ''q''] []
          (test_request ''GET'' [] ''extra=1&q=golang'' []) Params
          [VString [], VInt 0, VBool False, VSlice [], VString ''2333''] Query =
   UnpackWithOption test_env initial_config [''q''] []
          (test_request ''GET'' [] ''extra=1&q=golang'' []) Params
          [VString [], VInt 0, VBool False, VSlice [], VString ''2333''] Query"
proof -
  have n: "external_name ''json'' ` set Params = {''q'', ''int'', ''bool'', ''array'', ''default''}"
    using arg_cong [OF Params_names, of set] by simp
  have l: "length Params = 5" by (simp add: Params_def)
  have d: "external_name ''json'' (Params ! 4) = ''default''"
    using arg_cong [OF Params_names, of "\<lambda>xs. xs ! 4"] l by simp
  note c = unmatched_left_alone [of Params initial_config "[''extra'', ''q'']" "[]" test_env
        "test_request ''GET'' [] ''extra=1&q=golang'' []"
        "[VString [], VInt 0, VBool False, VSlice [], VString ''2333'']" Query]
  show ?thesis
  proof (intro conjI)
    show "fst (UnpackWithOption test_env initial_config [''extra'', ''q''] []
          (test_request ''GET'' [] ''extra=1&q=golang'' []) Params
          [VString [], VInt 0, VBool False, VSlice [], VString ''2333''] Query) ! 4
     = VString ''2333''"
      using c [THEN conjunct1, rule_format, of 4] by (simp add: initial_config_def l d)
    show "UnpackWithOption test_env initial_config [''extra'', ''q''] []
          (test_request ''GET'' [] ''extra=1&q=golang'' []) Params
          [VString [], VInt 0, VBool False, VSlice [], VString ''2333''] Query =
      UnpackWithOption test_env initial_config [''q''] []
          (test_request ''GET'' [] ''extra=1&q=golang'' []) Params
          [VString [], VInt 0, VBool False, VSlice [], VString ''2333''] Query"
      using c [THEN conjunct2] by (simp add: initial_config_def n)
  qed
qed

subsection \<open>The dispatcher\<close>

lemma ParseForm_no_body_method:
  assumes "req_method r \<in> {''GET'', ''DELETE'', ''HEAD'', ''TRACE''}"
  shows "ParseForm env r =
     (\<lparr>PostForm = Map.empty, Form = copyValues Map.empty (fst (ParseQuery env (req_raw_query r))),
       MultipartForm_File = Map.empty\<rparr>, snd (ParseQuery env (req_raw_query r)))"
  using assms by (auto simp: ParseForm_def split: prod.splits)

lemma UnpackWithOption_Query_no_body_method:
  assumes "req_method r \<in> {''GET'', ''DELETE'', ''HEAD'', ''TRACE''}"
  shows "UnpackWithOption env cfg names parts r fs st Query =
     (case snd (ParseQuery env (req_raw_query r)) of
        Some err \<Rightarrow> (st, Err err)
      | None \<Rightarrow> unpack (ParseFloat env) (fields_of (FieldTag cfg) fs)
                 (fst (ParseQuery env (req_raw_query r))) names st)"
  by (simp add: UnpackWithOption_def ParseForm_no_body_method [OF assms] URL_Query_def
      split: option.splits)

text \<open>
  Claim C6. Under GET, DELETE, HEAD and TRACE the dispatcher is the bind with option
  \<^verbatim>\<open>Query\<close>, and its result is a function of the URL's query alone: the error of
  the query's parse if there is one, and otherwise the result of \<open>unpack\<close> on the
  query's values. Replacing the \<^verbatim>\<open>Content-Type\<close> header and the body by anything else
  changes nothing.
\<close>

theorem no_body_method_binds_query_only:
  assumes "req_method r \<in> {''GET'', ''DELETE'', ''HEAD'', ''TRACE''}"
  shows "Unmarshal env cfg names parts r fs st =
           UnpackWithOption env cfg names parts r fs st Query \<and>
         Unmarshal env cfg names parts r fs st =
           (case snd (ParseQuery env (req_raw_query r)) of
              Some err \<Rightarrow> (st, Err err)
            | None \<Rightarrow> unpack (ParseFloat env) (fields_of (FieldTag cfg) fs)
                       (fst (ParseQuery env (req_raw_query r))) names st) \<and>
         Unmarshal env cfg names parts (r\<lparr>req_content_type := ct, req_body := b\<rparr>) fs st =
           Unmarshal env cfg names parts r fs st"
proof -
  have d: "Unmarshal env cfg names parts r' fs st =
             UnpackWithOption env cfg names parts r' fs st Query"
    if "req_method r' \<in> {''GET'', ''DELETE'', ''HEAD'', ''TRACE''}" for r'
    using that unfolding Unmarshal_def by auto
  let ?r = "r\<lparr>req_content_type := ct, req_body := b\<rparr>"
  have m: "req_method ?r \<in> {''GET'', ''DELETE'', ''HEAD'', ''TRACE''}" using assms by simp
  have q: "req_raw_query ?r = req_raw_query r" by simp
  note u = UnpackWithOption_Query_no_body_method [OF assms, of env cfg names parts fs st]
  note u' = UnpackWithOption_Query_no_body_method [OF m, of env cfg names parts fs st,
      unfolded q]
  show ?thesis
    unfolding d [OF assms] d [OF m] u' u by simp
qed

theorem no_body_method_binds_query_only_witness:
  "Unmarshal test_env initial_config [''extra'', ''q''] []
      (test_request ''GET'' ''application/json'' ''extra=1&q=golang'' ''{}'') Params
      [VString [], VInt 0, VBool False, VSlice [], VString ''2333''] =
     ([VString ''golang'', VInt 0, VBool False, VSlice [], VString ''2333''], Ok ())"
proof -
  have "req_method (test_request ''GET'' ''application/json'' ''extra=1&q=golang'' ''{}'')
          \<in> {''GET'', ''DELETE'', ''HEAD'', ''TRACE''}"
    by (simp add: test_request_def)
  from no_body_method_binds_query_only [OF this, THEN conjunct2, THEN conjunct1, of test_env initial_config
      "[''extra'', ''q'']" "[]" Params
      "[VString [], VInt 0, VBool False, VSlice [], VString ''2333'']"]
  show ?thesis
    by (simp add: test_request_def test_env_def test_ParseQuery_def initial_config_def
        unpack_def fields_of_def Params_def external_name_def Get_def Field_at_def
        populate_def set_value_def upt_rec)
qed

text \<open>
  Claim C7. Under any other method, when the declared type (the header, or
  \<^verbatim>\<open>application/octet-stream\<close> when the header is absent) parses to a media type
  that is none of the four recognised ones, the dispatcher ends with the error
  \<^verbatim>\<open>unsupported content type\<close> naming the declared type, and the struct is as it
  was.
\<close>

theorem unsupported_content_type:
  assumes "req_method r \<notin> {''GET'', ''DELETE'', ''HEAD'', ''TRACE''}"
      and "ParseMediaType env (declared_type r) = Inr mediaType"
      and "mediaType \<notin> {''application/json'', ''application/xml'', ''multipart/form-data'',
             ''application/x-www-form-urlencoded''}"
  shows "Unmarshal env cfg names parts r fs st =
           (st, Err (UnsupportedContentType (declared_type r))) \<and>
         (req_content_type r = [] \<longrightarrow> declared_type r = ''application/octet-stream'')"
  using assms by (simp add: Unmarshal_def declared_type_def)

theorem unsupported_content_type_witness:
  "Unmarshal test_env initial_config [] [] (test_request ''POST'' [] [] ''...'') Params
      [VString [], VInt 0, VBool False, VSlice [], VString []] =
     ([VString [], VInt 0, VBool False, VSlice [], VString []],
      Err (UnsupportedContentType ''application/octet-stream'')) \<and>
   Unmarshal test_env initial_config [] []
      (test_request ''POST'' ''application/javascript'' [] ''...'') Params
      [VString [], VInt 0, VBool False, VSlice [], VString []] =
     ([VString [], VInt 0, VBool False, VSlice [], VString []],
      Err (UnsupportedContentType ''application/javascript''))"
  using unsupported_content_type [of "test_request ''POST'' [] [] ''...''" test_env "''application/octet-stream''"
          initial_config "[]" "[]" Params "[VString [], VInt 0, VBool False, VSlice [], VString []]"]
        unsupported_content_type [of "test_request ''POST'' ''application/javascript'' [] ''...''" test_env
          "''application/javascript''"
          initial_config "[]" "[]" Params "[VString [], VInt 0, VBool False, VSlice [], VString []]"]
  by (simp add: test_request_def test_env_def declared_type_def)

subsection \<open>Binding from one value source\<close>

lemma fields_of_two:
  assumes "external_name tag A = a" "external_name tag B = b" "a \<noteq> b"
  shows "fields_of tag [A, B] a = Some (Field_at [A, B] 0)"
    and "fields_of tag [A, B] b = Some (Field_at [A, B] 1)"
    and "k \<noteq> a \<Longrightarrow> k \<noteq> b \<Longrightarrow> fields_of tag [A, B] k = None"
  using assms by (simp_all add: fields_of_def upt_rec)

lemma prefix_before_failure:
  assumes A: "Kind (Type A) = String" "PkgPath A = []"
      and n: "external_name tag A = a" "external_name tag B = b" "a \<noteq> b"
      and f: "form a = Some [va]"
      and P: "b \<notin> set P"
  shows "unpack_range (populate parseFloat) (fields_of tag [A, B]) form P [x, y] =
           ((if a \<in> set P then [VString va, y] else [x, y]), Ok ())"
  using P
proof (induction P arbitrary: x)
  case Nil
  then show ?case by simp
next
  case (Cons k P)
  have kb: "k \<noteq> b" and Pb: "b \<notin> set P" using Cons.prems by auto
  show ?case
  proof (cases "k = a")
    case True
    have "unpack_values (populate parseFloat) (Field_at [A, B] 0) a [va] [x, y] =
            ([VString va, y], Ok ())"
      using A by (simp add: Field_at_def populate_def set_value_def)
    then show ?thesis
      using True fields_of_two(1) [OF n] f Cons.IH [OF Pb, of "VString va"] by simp
  next
    case False
    then show ?thesis
      using fields_of_two(3) [OF n, of k] kb Cons.IH [OF Pb, of x] by auto
  qed
qed

lemma test_AB_names:
  "external_name ''json'' test_A = ''a''" "external_name ''json'' test_B = ''b''"
  by (simp_all add: test_A_def test_B_def external_name_def Get_def lower_first_def
      ToLower_byte_def) code_simp+

lemma ParseInt_not_a_number:
  "ParseInt ''not-a-number'' = Inl (NumError ''ParseInt'' ''not-a-number'' ErrSyntax)"
  by (simp add: ParseInt_def ParseUint_def is_digit_def)

lemma fields_of_AB:
  "fields_of ''json'' [test_A, test_B] ''a'' =
     Some \<lparr>field_index = 0, value_type = Other String ''string'', flagRO = False\<rparr>"
  "fields_of ''json'' [test_A, test_B] ''b'' =
     Some \<lparr>field_index = 1, value_type = Other Int_kind ''int'', flagRO = False\<rparr>"
  using fields_of_two(1,2) [OF test_AB_names]
  by (simp_all add: Field_at_def) (simp_all add: test_A_def test_B_def)

text \<open>
  Claim C1, as amended. A record with a settable text field \<open>A\<close> and an integer field
  \<open>B\<close>, bound from a source that gives \<open>A\<close> one value and \<open>B\<close> one malformed numeral:
  the call ends with \<open>B\<close>'s parse error under \<open>B\<close>'s external name, \<open>B\<close> is as it was,
  and nothing is bound after the failure. So \<open>A\<close> holds its new value exactly when
  the \<^verbatim>\<open>range\<close> over the source visits \<open>A\<close>'s key before \<open>B\<close>'s, and its old value
  otherwise; Go leaves that order open.
\<close>

theorem first_failure_aborts:
  fixes parseFloat :: "string \<Rightarrow> error + 'f"
  assumes A: "Kind (Type A) = String" "PkgPath A = []"
      and B: "Kind (Type B) = Int_kind"
      and n: "external_name tag A = a" "external_name tag B = b" "a \<noteq> b"
      and f: "form a = Some [va]" "form b = Some [vb]"
      and e: "ParseInt vb = Inl err"
      and v: "b \<in> set names"
  shows "unpack parseFloat (fields_of tag [A, B]) form names [x, y] =
           ((if a \<in> set (takeWhile (\<lambda>k. k \<noteq> b) names) then [VString va, y] else [x, y]),
            Err (Named b err))"
proof -
  let ?P = "takeWhile (\<lambda>k. k \<noteq> b) names"
  let ?R = "dropWhile (\<lambda>k. k \<noteq> b) names"
  have "?R \<noteq> []" using v by (simp add: dropWhile_eq_Nil_conv)
  moreover have "hd ?R = b" using hd_dropWhile [OF \<open>?R \<noteq> []\<close>] by simp
  ultimately obtain R where R: "?R = b # R" by (cases ?R) auto
  have names: "names = ?P @ b # R" using takeWhile_dropWhile_id [of "\<lambda>k. k \<noteq> b" names] R by simp
  have Pb: "b \<notin> set ?P" by (auto dest: set_takeWhileD)
  have fail: "unpack_values (populate parseFloat) (Field_at [A, B] 1) b [vb] st = (st, Err (Named b err))"
    for st :: "'f val list"
    using B e by (simp add: Field_at_def populate_def)
  have pre: "unpack_range (populate parseFloat) (fields_of tag [A, B]) form ?P [x, y] =
          ((if a \<in> set ?P then [VString va, y] else [x, y]), Ok ())"
    using A n f(1) Pb by (rule prefix_before_failure)
  have "unpack_range (populate parseFloat) (fields_of tag [A, B]) form (?P @ b # R) [x, y] =
          ((if a \<in> set ?P then [VString va, y] else [x, y]), Err (Named b err))"
    unfolding unpack_range_append pre
    using fields_of_two(2) [OF n] f(2) fail by simp
  then show ?thesis unfolding unpack_def using names by simp
qed

theorem first_failure_aborts_witness:
  "unpack no_float (fields_of ''json'' [test_A, test_B])
     [''a'' \<mapsto> [''new''], ''b'' \<mapsto> [''not-a-number'']] [''a'', ''b'']
     [VString ''old'', VInt 7] =
   ([VString ''new'', VInt 7],
    Err (Named ''b'' (NumError ''ParseInt'' ''not-a-number'' ErrSyntax)))"
  using first_failure_aborts [of test_A test_B "''json''" "''a''" "''b''"
      "[''a'' \<mapsto> [''new''], ''b'' \<mapsto> [''not-a-number'']]" "''new''" "''not-a-number''"
      "NumError ''ParseInt'' ''not-a-number'' ErrSyntax" "[''a'', ''b'']" no_float
      "VString ''old''" "VInt 7"]
  by (simp add: test_AB_names ParseInt_not_a_number) (simp add: test_A_def test_B_def)

text \<open>
  Claim C1 as stated fails: when the key of \<open>B\<close> is visited first, the call ends
  before \<open>A\<close> is bound, and \<open>A\<close> still holds \<^verbatim>\<open>old\<close>.
\<close>

theorem first_failure_before_binding:
  "unpack no_float (fields_of ''json'' [test_A, test_B])
     [''a'' \<mapsto> [''new''], ''b'' \<mapsto> [''not-a-number'']] [''b'', ''a'']
     [VString ''old'', VInt 7] =
   ([VString ''old'', VInt 7],
    Err (Named ''b'' (NumError ''ParseInt'' ''not-a-number'' ErrSyntax)))"
  by (simp add: unpack_def fields_of_AB populate_def ParseInt_not_a_number)

subsection \<open>Merged sources and repeated keys\<close>

lemma upt_5: "[0..<5] = [0, 1, 2, 3, 4]"
  by (simp add: upt_rec)

lemma Field_at_Params:
  "Field_at Params 4 = \<lparr>field_index = 4, value_type = Other String ''string'', flagRO = False\<rparr>"
  "Field_at Params 3 = \<lparr>field_index = 3, value_type = SliceOf (Other Int_kind ''int''), flagRO = False\<rparr>"
  by (simp_all add: Field_at_def Params_def)

lemma fields_of_Params:
  "fields_of ''json'' Params ''default'' = Some (Field_at Params 4)"
  "fields_of ''json'' Params ''array'' = Some (Field_at Params 3)"
proof -
  have l: "length Params = 5" by (simp add: Params_def)
  have n: "external_name ''json'' (Params ! 0) = ''q''" "external_name ''json'' (Params ! 1) = ''int''"
    "external_name ''json'' (Params ! 2) = ''bool''" "external_name ''json'' (Params ! 3) = ''array''"
    "external_name ''json'' (Params ! 4) = ''default''"
    by (simp_all add: Params_def external_name_def Get_def)
  show "fields_of ''json'' Params ''default'' = Some (Field_at Params 4)"
    "fields_of ''json'' Params ''array'' = Some (Field_at Params 3)"
    by (simp_all add: fields_of_def l upt_5 n)
qed

text \<open>
  Claim C2. Under \<^verbatim>\<open>Mixed\<close>, when the posted body and the query both give values
  to the name of a scalar field and the bind ends with a nil error, the field holds
  what \<open>populate\<close> makes of the query's last value; for a text field that is the
  value itself.
\<close>

theorem query_wins_when_mixed:
  fixes env :: "'f env"
  assumes body: "PostForm (fst (ParseForm env r)) k = Some bs"
      and query: "URL_Query env r k = Some qs" "qs \<noteq> []"
      and fk: "fields_of (FieldTag cfg) fs k = Some f" and sc: "Kind (value_type f) \<noteq> Slice"
      and len: "length st = length fs"
      and k: "k \<in> set names"
      and ok: "UnpackWithOption env cfg names parts r fs st Mixed = (st', Ok ())"
  shows "populate (ParseFloat env) (value_type f) (flagRO f) (last qs) = Ok (st' ! field_index f) \<and>
         (Kind (value_type f) = String \<longrightarrow> st' ! field_index f = VString (last qs))"
proof -
  have form: "Form (fst (ParseForm env r)) k = Some (bs @ qs)"
    using body query(1) by (simp add: ParseForm_Form copyValues_def)
  have "snd (ParseForm env r) = None"
    using ok UnpackWithOption_plain [of Mixed env cfg names parts r fs st]
    by (cases "snd (ParseForm env r)") simp_all
  then have u: "unpack_range (populate (ParseFloat env)) (fields_of (FieldTag cfg) fs)
      (Form (fst (ParseForm env r))) names st = (st', Ok ())"
    using ok UnpackWithOption_plain [of Mixed env cfg names parts r fs st]
    by (simp add: unpack_def)
  have "bs @ qs \<noteq> []" using query(2) by simp
  from unpack_range_scalar_key [OF fk sc form this len k u]
  have p: "populate (ParseFloat env) (value_type f) (flagRO f) (last qs) = Ok (st' ! field_index f)"
    using query(2) by simp
  then show ?thesis
    by (auto simp: populate_def set_value_def split: if_splits)
qed

theorem query_wins_when_mixed_witness:
  "UnpackWithOption test_env initial_config [''default''] []
      (test_request ''POST'' ''application/x-www-form-urlencoded; charset=utf-8''
         ''default=888'' ''default=999'')
      Params [VString [], VInt 0, VBool False, VSlice [], VString ''2333''] Mixed =
     ([VString [], VInt 0, VBool False, VSlice [], VString ''888''], Ok ()) \<and>
   [VString [], VInt 0, VBool False, VSlice [], VString ''888''] ! 4 = (VString ''888'' :: unit val)"
proof -
  let ?r = "test_request ''POST'' ''application/x-www-form-urlencoded; charset=utf-8''
         ''default=888'' ''default=999''"
  let ?st = "[VString [], VInt 0, VBool False, VSlice [], VString ''2333''] :: unit val list"
  let ?st' = "[VString [], VInt 0, VBool False, VSlice [], VString ''888''] :: unit val list"
  have body: "PostForm (fst (ParseForm test_env ?r)) ''default'' = Some [''999'']"
    by (simp add: ParseForm_def parsePostForm_def test_request_def test_env_def declared_type_def
        test_ParseQuery_def)
  have query: "URL_Query test_env ?r ''default'' = Some [''888'']"
    by (simp add: URL_Query_def test_request_def test_env_def test_ParseQuery_def)
  have ok: "UnpackWithOption test_env initial_config [''default''] [] ?r Params ?st Mixed =
      (?st', Ok ())"
    by (simp add: UnpackWithOption_def ParseForm_def parsePostForm_def test_request_def
        test_env_def declared_type_def test_ParseQuery_def copyValues_def initial_config_def
        unpack_def fields_of_Params Field_at_Params populate_def set_value_def)
  have len: "length ?st = length Params" by (simp add: Params_def)
  from query_wins_when_mixed [of test_env ?r "''default''" "[''999'']" "[''888'']" initial_config Params
      "Field_at Params 4" ?st "[''default'']" "[]" ?st', OF body query]
  have "?st' ! field_index (Field_at Params 4) = VString ''888''"
    using ok len by (simp add: initial_config_def fields_of_Params) (simp add: Field_at_Params)
  then show ?thesis using ok by (simp add: Field_at_Params)
qed

text \<open>
  Claim C3, as amended. Under \<^verbatim>\<open>Query\<close>, \<^verbatim>\<open>Body\<close> and \<^verbatim>\<open>Mixed\<close> alike, when one source
  gives the values 1, 2, 3 to the name of a field of type slice of \<^verbatim>\<open>int\<close> and the
  bind ends with a nil error, the field holds what it held before the call followed
  by 1, 2, 3, in that order; so \<open>[1, 2, 3]\<close> when it was empty before.
\<close>

theorem repeated_values_appended:
  fixes env :: "'f env"
  assumes src: "(option = Query \<and> URL_Query env r k = Some [''1'', ''2'', ''3'']) \<or>
                (option = Body \<and> PostForm (fst (ParseForm env r)) k = Some [''1'', ''2'', ''3'']) \<or>
                (option = Mixed \<and>
                   (PostForm (fst (ParseForm env r)) k = Some [''1'', ''2'', ''3''] \<and>
                    URL_Query env r k = None \<or>
                    PostForm (fst (ParseForm env r)) k = None \<and>
                    URL_Query env r k = Some [''1'', ''2'', ''3'']))"
      and fk: "fields_of (FieldTag cfg) fs k = Some f"
      and ty: "value_type f = SliceOf t" "Kind t = Int_kind"
      and len: "length st = length fs" and cur: "st ! field_index f = VSlice xs"
      and k: "k \<in> set names" and d: "distinct names"
      and ok: "UnpackWithOption env cfg names parts r fs st option = (st', Ok ())"
  shows "st' ! field_index f = VSlice (xs @ [VInt 1, VInt 2, VInt 3])"
proof -
  let ?form = "if option = Query then URL_Query env r
           else if option = Mixed then Form (fst (ParseForm env r))
           else PostForm (fst (ParseForm env r))"
  have opt: "option = Query \<or> option = Body \<or> option = Mixed" using src by blast
  have form: "?form k = Some [''1'', ''2'', ''3'']"
    using src by (auto simp: ParseForm_Form copyValues_def)
  have "snd (ParseForm env r) = None"
    using ok UnpackWithOption_plain [OF opt, of env cfg names parts r fs st]
    by (cases "snd (ParseForm env r)") simp_all
  then have u: "unpack_range (populate (ParseFloat env)) (fields_of (FieldTag cfg) fs)
      ?form names st = (st', Ok ())"
    using ok UnpackWithOption_plain [OF opt, of env cfg names parts r fs st]
    by (simp add: unpack_def)
  have sl: "Kind (value_type f) = Slice" using ty(1) by simp
  from unpack_range_slice_key [OF fk sl form len cur k d u]
  obtain ys where ys: "st' ! field_index f = VSlice (xs @ ys)"
    and all: "list_all2 (\<lambda>v y. populate (ParseFloat env) t False v = Ok y) [''1'', ''2'', ''3''] ys"
    using ty(1) by auto
  from populate_123 [OF ty(2) all] ys show ?thesis by simp
qed

theorem repeated_values_appended_witness:
  "UnpackWithOption test_env initial_config [''array''] []
      (test_request ''GET'' [] ''array=1&array=2&array=3'' [])
      Params [VString [], VInt 0, VBool False, VSlice [], VString []] Query =
     ([VString [], VInt 0, VBool False, VSlice [VInt 1, VInt 2, VInt 3], VString []], Ok ()) \<and>
   [VString [], VInt 0, VBool False, VSlice [VInt 1, VInt 2, VInt 3], VString []] ! 3 =
     (VSlice ([] @ [VInt 1, VInt 2, VInt 3]) :: unit val)"
proof -
  let ?r = "test_request ''GET'' [] ''array=1&array=2&array=3'' []"
  let ?st = "[VString [], VInt 0, VBool False, VSlice [], VString []] :: unit val list"
  let ?st' = "[VString [], VInt 0, VBool False, VSlice [VInt 1, VInt 2, VInt 3], VString []]
     :: unit val list"
  have query: "URL_Query test_env ?r ''array'' = Some [''1'', ''2'', ''3'']"
    by (simp add: URL_Query_def test_request_def test_env_def test_ParseQuery_def)
  have ok: "UnpackWithOption test_env initial_config [''array''] [] ?r Params ?st Query =
      (?st', Ok ())"
    by (simp add: UnpackWithOption_def ParseForm_def test_request_def URL_Query_def
        test_env_def test_ParseQuery_def copyValues_def initial_config_def
        unpack_def fields_of_Params Field_at_Params populate_def set_value_def
        ParseInt_def ParseUint_def is_digit_def digit_val_def)
  have len: "length ?st = length Params" by (simp add: Params_def)
  from repeated_values_appended [of Query test_env ?r "''array''" initial_config Params "Field_at Params 3"
      "Other Int_kind ''int''" ?st "[]" "[''array'']" "[]" ?st']
  have "?st' ! field_index (Field_at Params 3) = VSlice ([] @ [VInt 1, VInt 2, VInt 3])"
    using ok len query by (simp add: initial_config_def fields_of_Params) (simp add: Field_at_Params)
  then show ?thesis using ok by (simp add: Field_at_Params)
qed

text \<open>
  Claim C3 as stated fails for a field that the caller has pre-set: the values are
  appended to \<open>[9]\<close>, and the field is \<open>[9, 1, 2, 3]\<close>, not \<open>[1, 2, 3]\<close>.
\<close>

theorem repeated_values_after_preset:
  "UnpackWithOption test_env initial_config [''array''] []
      (test_request ''GET'' [] ''array=1&array=2&array=3'' [])
      Params [VString [], VInt 0, VBool False, VSlice [VInt 9], VString []] Query =
     ([VString [], VInt 0, VBool False, VSlice [VInt 9, VInt 1, VInt 2, VInt 3], VString []],
      Ok ())"
  by (simp add: UnpackWithOption_def ParseForm_def test_request_def URL_Query_def
        test_env_def test_ParseQuery_def copyValues_def initial_config_def
        unpack_def fields_of_Params Field_at_Params populate_def set_value_def
        ParseInt_def ParseUint_def is_digit_def digit_val_def)

end
